theory Spec2Isabelle
  imports Main "HOL-Library.Sublist" "HOL-Library.Word"
begin

section \<open>The 2D alignment driver (scripts/2d\_align\_driver.py)\<close>

text \<open>
  The driver is a straight-line Python 2 script: it parses its command line, prints the
  parsed arguments, creates the workspace directory when nothing exists at that path, and
  then calls five imported stage functions one after the other. The stage functions and
  the operating system are not part of the script, so they are parameters of the model:
  an environment supplies, for every external function, its effect on the outside world
  (a value of an arbitrary type \<open>'w\<close>) and whether the call returned or raised.
  External calls are assumed to come back (by returning or by raising). The import
  statements of lines 10 to 18 are left out. The parsing of the command line at line 40
  can end the script before anything else happens; it is modelled separately
  (\<open>parse_command_line\<close>), and \<open>driver\<close> is the script from its command line, while
  \<open>run\<close> is the script from the first statement after a successful parse.
\<close>

subsection \<open>Exceptions and results\<close>

text \<open>A raised Python exception, with its message. \<open>Inl\<close> is a raise, \<open>Inr ()\<close> a normal return.\<close>

datatype error = Error string

type_synonym result = "error + unit"

subsection \<open>The command line and the parsed arguments\<close>

text \<open>
  What the parser has taken from the command line when it succeeds: the positional
  \<open>tiles_json\<close>, which is required, and the value of every option that was given.
\<close>

record argv =
  arg_tiles_json :: string
  opt_workspace_dir :: "string option"
  opt_render :: bool
  opt_output_file_name :: "string option"
  opt_jar_file :: "string option"
  opt_bounding_box :: "string option"

text \<open>The namespace returned by \<open>parser.parse_args()\<close>.\<close>

record args =
  tiles_fname :: string
  workspace_dir :: string
  render :: bool
  output_file_name :: string
  jar_file :: string
  bounding_box :: string

text \<open>Decimal formatting of a Python integer, as \<open>'{0}'.format(n)\<close> produces it.\<close>

fun str_nat :: "nat \<Rightarrow> string" where
  "str_nat n =
     (if n < 10 then [''0123456789'' ! n]
      else str_nat (n div 10) @ [''0123456789'' ! (n mod 10)])"

declare str_nat.simps [simp del]

definition str_int :: "int \<Rightarrow> string" where
  "str_int i = (if i < 0 then CHR ''-'' # str_nat (nat (- i)) else str_nat (nat i))"

text \<open>
  Line 38: \<open>'{0} {1} {2} {3}'.format((-sys.maxint - 1), sys.maxint, (-sys.maxint - 1), sys.maxint)\<close>.
  \<open>sys.maxint\<close> is a constant of the platform (the largest C long) and is a parameter here.
\<close>

definition default_bounding_box :: "int \<Rightarrow> string" where
  "default_bounding_box maxint =
     str_int (- maxint - 1) @ '' '' @ str_int maxint @ '' '' @
     str_int (- maxint - 1) @ '' '' @ str_int maxint"

text \<open>\<open>sys.maxint\<close> on a platform whose C long has the given number of bits.\<close>

definition sys_maxint :: "nat \<Rightarrow> int" where
  "sys_maxint long_bits = 2 ^ (long_bits - 1) - 1"

text \<open>
  Lines 21 to 40: the declared arguments with their defaults. Every value has
  \<open>type=str\<close>, so a supplied string is stored as it is; \<open>--render\<close> is a
  \<open>store_true\<close> flag.
\<close>

definition parse_args :: "int \<Rightarrow> argv \<Rightarrow> args" where
  "parse_args maxint cl =
     \<lparr> tiles_fname = arg_tiles_json cl,
       workspace_dir = (case opt_workspace_dir cl of None \<Rightarrow> ''.'' | Some d \<Rightarrow> d),
       render = opt_render cl,
       output_file_name =
         (case opt_output_file_name cl of None \<Rightarrow> ''output.json'' | Some f \<Rightarrow> f),
       jar_file =
         (case opt_jar_file cl of
            None \<Rightarrow> ''../target/render-0.0.1-SNAPSHOT.jar'' | Some j \<Rightarrow> j),
       bounding_box =
         (case opt_bounding_box cl of None \<Rightarrow> default_bounding_box maxint | Some b \<Rightarrow> b) \<rparr>"

subsection \<open>Path construction\<close>

text \<open>
  \<open>os.path.join\<close> with two components, as \<open>posixpath.join\<close> of Python 2 computes it: an
  absolute second component replaces the first; otherwise a separator is inserted unless
  the first component is empty or already ends with one.
\<close>

definition os_path_join :: "string \<Rightarrow> string \<Rightarrow> string" where
  "os_path_join a b =
     (if take 1 b = ''/'' then b
      else if a = [] \<or> last a = CHR ''/'' then a @ b
      else a @ ''/'' @ b)"

text \<open>Lines 49, 54, 58, 62 and 66: the five paths under the workspace directory.\<close>

definition filter_dir :: "args \<Rightarrow> string" where
  "filter_dir a = os_path_join (workspace_dir a) ''filterd''"

definition sift_dir :: "args \<Rightarrow> string" where
  "sift_dir a = os_path_join (workspace_dir a) ''sifts''"

definition match_dir :: "args \<Rightarrow> string" where
  "match_dir a = os_path_join (workspace_dir a) ''sift_matches''"

definition correspondent_fname :: "args \<Rightarrow> string" where
  "correspondent_fname a = os_path_join (workspace_dir a) ''all_correspondent.json''"

definition optmon_fname :: "args \<Rightarrow> string" where
  "optmon_fname a = os_path_join (workspace_dir a) ''optimized_montage.json''"

subsection \<open>External calls, the environment and the trace\<close>

text \<open>The calls the script makes that act on the outside world, with their arguments.\<close>

datatype call =
    PrintArgs args
  | MakeDirs string
  | FilterTiles string string string
  | CreateSiftFeatures string string string
  | MatchSiftFeatures string string string string
  | JsonConcat string string
  | OptimizeMontageTransform string string string string

text \<open>An external action changes the world and returns or raises.\<close>

type_synonym 'w action = "'w \<Rightarrow> result \<times> 'w"

text \<open>
  The environment: \<open>os.path.exists\<close> (a query, it never raises), \<open>os.makedirs\<close> and the
  five imported stage functions, each taking the arguments of the Python call.
\<close>

record 'w env =
  os_path_exists :: "string \<Rightarrow> 'w \<Rightarrow> bool"
  os_makedirs :: "string \<Rightarrow> 'w action"
  filter_tiles :: "string \<Rightarrow> string \<Rightarrow> string \<Rightarrow> 'w action"
  create_sift_features :: "string \<Rightarrow> string \<Rightarrow> string \<Rightarrow> 'w action"
  match_sift_features :: "string \<Rightarrow> string \<Rightarrow> string \<Rightarrow> string \<Rightarrow> 'w action"
  json_concat :: "string \<Rightarrow> string \<Rightarrow> 'w action"
  optimize_montage_transform :: "string \<Rightarrow> string \<Rightarrow> string \<Rightarrow> string \<Rightarrow> 'w action"

text \<open>What a call does in an environment. \<open>print args\<close> writes to standard output only.\<close>

fun exec :: "'w env \<Rightarrow> call \<Rightarrow> 'w action" where
  "exec env (PrintArgs a) = (\<lambda>w. (Inr (), w))"
| "exec env (MakeDirs d) = os_makedirs env d"
| "exec env (FilterTiles t d b) = filter_tiles env t d b"
| "exec env (CreateSiftFeatures d s j) = create_sift_features env d s j"
| "exec env (MatchSiftFeatures d s m j) = match_sift_features env d s m j"
| "exec env (JsonConcat m c) = json_concat env m c"
| "exec env (OptimizeMontageTransform c t out j) = optimize_montage_transform env c t out j"

text \<open>
  One executed call: the call, the world it was started in, how it came back, and the
  world it left. The trace of a run is the list of its steps in execution order; a call
  is blocking, so a step is complete before the next one is appended.
\<close>

record 'w step =
  step_call :: call
  step_pre :: 'w
  step_result :: result
  step_post :: 'w

type_synonym 'w prog = "'w \<times> 'w step list \<Rightarrow> result \<times> 'w \<times> 'w step list"

definition perform :: "'w env \<Rightarrow> call \<Rightarrow> 'w prog" where
  "perform env c =
     (\<lambda>(w, tr). case exec env c w of
        (r, w') \<Rightarrow>
          (r, w', tr @ [\<lparr>step_call = c, step_pre = w, step_result = r, step_post = w'\<rparr>]))"

text \<open>
  Statement sequencing. The script has no \<open>try\<close>: an exception raised by a statement
  skips everything after it.
\<close>

definition seq :: "'w prog \<Rightarrow> 'w prog \<Rightarrow> 'w prog" where
  "seq p q = (\<lambda>s. case p s of (Inl e, s') \<Rightarrow> (Inl e, s') | (Inr u, s') \<Rightarrow> q s')"

definition skip :: "'w prog" where
  "skip = (\<lambda>s. (Inr (), s))"

subsection \<open>The script\<close>

text \<open>Lines 42 to 67, statement by statement.\<close>

definition main :: "'w env \<Rightarrow> args \<Rightarrow> 'w prog" where
  "main env a =
     seq (perform env (PrintArgs a))
    (seq (\<lambda>(w, tr).
            if \<not> os_path_exists env (workspace_dir a) w
            then perform env (MakeDirs (workspace_dir a)) (w, tr)
            else skip (w, tr))
    (seq (perform env (FilterTiles (tiles_fname a) (filter_dir a) (bounding_box a)))
    (seq (perform env (CreateSiftFeatures (filter_dir a) (sift_dir a) (jar_file a)))
    (seq (perform env (MatchSiftFeatures (filter_dir a) (sift_dir a) (match_dir a) (jar_file a)))
    (seq (perform env (JsonConcat (match_dir a) (correspondent_fname a)))
         (perform env
            (OptimizeMontageTransform (correspondent_fname a) (tiles_fname a)
               (optmon_fname a) (jar_file a))))))))"

text \<open>
  A run of the script, once its command line has been parsed, in an initial world: the
  result, the final world and the trace.
\<close>

definition run :: "'w env \<Rightarrow> int \<Rightarrow> argv \<Rightarrow> 'w \<Rightarrow> result \<times> 'w \<times> 'w step list" where
  "run env maxint cl w = main env (parse_args maxint cl) (w, [])"

text \<open>
  The exit status of the interpreter: 0 when the script runs to its end, 1 when an
  exception reaches the top level.
\<close>

fun exit_status :: "result \<Rightarrow> nat" where
  "exit_status (Inr u) = 0"
| "exit_status (Inl e) = 1"

subsection \<open>The argument parser\<close>

text \<open>
  Lines 21 to 40 build an \<open>argparse.ArgumentParser\<close> and call \<open>parser.parse_args()\<close>
  on \<open>sys.argv[1:]\<close>. The parser is library code; what follows is its algorithm
  (\<open>_parse_optional\<close>, \<open>_get_option_tuples\<close> and the consuming loop of
  \<open>_parse_known_args\<close>) for the arguments this script declares, on command lines
  without the \<open>--\<close> separator and without a value attached to a flag (\<open>-r=x\<close>, \<open>-rx\<close>,
  \<open>--render=x\<close>, and the same for help), which are left out.
\<close>

















subsection \<open>Observations on calls and traces\<close>

text \<open>The five pipeline stages, as opposed to printing and directory creation.\<close>

fun is_stage :: "call \<Rightarrow> bool" where
  "is_stage (PrintArgs a) = False"
| "is_stage (MakeDirs d) = False"
| "is_stage (FilterTiles t d b) = True"
| "is_stage (CreateSiftFeatures d s j) = True"
| "is_stage (MatchSiftFeatures d s m j) = True"
| "is_stage (JsonConcat m c) = True"
| "is_stage (OptimizeMontageTransform c t out j) = True"

text \<open>
  Modelled from the spec: the stage functions are imported from modules that are not
  part of the script, so which argument of each is the path it produces is taken from the
  spec's list of external collaborators (filter: input spec, output dir, bounding box;
  feature extraction: input dir, output dir, executable; matcher: input dir, features dir,
  output dir, executable; concatenator: input dir, output file; optimizer: correspondence
  file, original spec, output file, executable). \<open>os.makedirs\<close> creates its argument.
\<close>

fun call_output :: "call \<Rightarrow> string list" where
  "call_output (PrintArgs a) = []"
| "call_output (MakeDirs d) = [d]"
| "call_output (FilterTiles t d b) = [d]"
| "call_output (CreateSiftFeatures d s j) = [s]"
| "call_output (MatchSiftFeatures d s m j) = [m]"
| "call_output (JsonConcat m c) = [c]"
| "call_output (OptimizeMontageTransform c t out j) = [out]"

text \<open>The tile-spec argument of a call: only the filter and the optimizer have one.\<close>

fun call_tile_spec :: "call \<Rightarrow> string list" where
  "call_tile_spec (FilterTiles t d b) = [t]"
| "call_tile_spec (OptimizeMontageTransform c t out j) = [t]"
| "call_tile_spec c = []"

definition calls :: "'w step list \<Rightarrow> call list" where
  "calls tr = map step_call tr"

definition stage_steps :: "'w step list \<Rightarrow> 'w step list" where
  "stage_steps tr = filter (\<lambda>s. is_stage (step_call s)) tr"

text \<open>The five stage calls of lines 50 to 67, in program order.\<close>

definition stage_calls :: "args \<Rightarrow> call list" where
  "stage_calls a =
     [FilterTiles (tiles_fname a) (filter_dir a) (bounding_box a),
      CreateSiftFeatures (filter_dir a) (sift_dir a) (jar_file a),
      MatchSiftFeatures (filter_dir a) (sift_dir a) (match_dir a) (jar_file a),
      JsonConcat (match_dir a) (correspondent_fname a),
      OptimizeMontageTransform (correspondent_fname a) (tiles_fname a) (optmon_fname a)
        (jar_file a)]"

text \<open>
  All calls of the script in program order; \<open>ex\<close> says whether something existed at the
  workspace path when line 45 asked.
\<close>

definition script :: "args \<Rightarrow> bool \<Rightarrow> call list" where
  "script a ex =
     PrintArgs a # (if ex then [] else [MakeDirs (workspace_dir a)]) @ stage_calls a"

text \<open>Performing a list of calls in order, stopping at the first that raises.\<close>

fun perform_all :: "'w env \<Rightarrow> call list \<Rightarrow> 'w prog" where
  "perform_all env [] = skip"
| "perform_all env (c # cs) = seq (perform env c) (perform_all env cs)"

text \<open>
  A list of steps is linked from \<open>w\<close> to \<open>w'\<close> when the first starts in \<open>w\<close>, each later
  one starts in the world its predecessor left, only the last may have raised, and the
  last leaves \<open>w'\<close>: nothing happens between two steps, and a step starts only after
  the one before it has returned.
\<close>

fun linked :: "'w \<Rightarrow> 'w step list \<Rightarrow> 'w \<Rightarrow> bool" where
  "linked w [] w' = (w' = w)"
| "linked w [s] w' = (step_pre s = w \<and> w' = step_post s)"
| "linked w (s # t # ss) w' =
     (step_pre s = w \<and> step_result s = Inr () \<and> linked (step_post s) (t # ss) w')"

text \<open>A step is faithful to an environment when its result and the world it left are
  what the environment's function gives for the call in the world the step started in.\<close>

definition faithful :: "'w env \<Rightarrow> 'w step \<Rightarrow> bool" where
  "faithful env s =
     (step_result s = fst (exec env (step_call s) (step_pre s)) \<and>
      step_post s = snd (exec env (step_call s) (step_pre s)))"

text \<open>
  The directories above a path: every non-empty proper prefix that ends just before a
  separator (\<open>a\<close> and \<open>a/b\<close> for \<open>a/b/c\<close>).
\<close>

fun parent_dirs_from :: "string \<Rightarrow> string \<Rightarrow> string list" where
  "parent_dirs_from pre [] = []"
| "parent_dirs_from pre (c # cs) =
     (if c = CHR ''/'' \<and> pre \<noteq> [] then [pre] else []) @ parent_dirs_from (pre @ [c]) cs"

definition parent_dirs :: "string \<Rightarrow> string list" where
  "parent_dirs p = parent_dirs_from [] p"

subsection \<open>A sample environment\<close>

text \<open>
  A small in-memory file system, used to run the script on concrete inputs: a world is
  an association list from path strings to node kinds, the first entry for a path
  counting. A sample stage succeeds when its inputs are present with the right kind and
  the directories above its output exist, and then creates its output.
\<close>

datatype node = File | Dir

type_synonym fs = "(string \<times> node) list"

definition fs_exists :: "string \<Rightarrow> fs \<Rightarrow> bool" where
  "fs_exists p fs = (map_of fs p \<noteq> None)"

definition fs_isdir :: "fs \<Rightarrow> string \<Rightarrow> bool" where
  "fs_isdir fs p = (map_of fs p = Some Dir)"

definition fs_makedirs :: "string \<Rightarrow> fs action" where
  "fs_makedirs d fs =
     (if d = [] \<or> fs_exists d fs then (Inl (Error ''OSError''), fs)
      else if list_ex (\<lambda>q. map_of fs q = Some File) (parent_dirs d)
      then (Inl (Error ''OSError''), fs)
      else (Inr (),
            map (\<lambda>q. (q, Dir)) (filter (\<lambda>q. \<not> fs_exists q fs) (parent_dirs d) @ [d]) @ fs))"

definition sample_stage :: "(string \<times> node) list \<Rightarrow> string \<Rightarrow> node \<Rightarrow> fs action" where
  "sample_stage inputs out kind fs =
     (if list_all (\<lambda>(p, k). map_of fs p = Some k) inputs \<and>
         list_all (fs_isdir fs) (parent_dirs out)
      then (Inr (), (out, kind) # fs)
      else (Inl (Error ''IOError''), fs))"

definition sample_env :: "fs env" where
  "sample_env =
     \<lparr> os_path_exists = fs_exists,
       os_makedirs = fs_makedirs,
       filter_tiles = (\<lambda>t d b. sample_stage [(t, File)] d Dir),
       create_sift_features = (\<lambda>d s j. sample_stage [(d, Dir), (j, File)] s Dir),
       match_sift_features =
         (\<lambda>d s m j. sample_stage [(d, Dir), (s, Dir), (j, File)] m Dir),
       json_concat = (\<lambda>m c. sample_stage [(m, Dir)] c File),
       optimize_montage_transform =
         (\<lambda>c t out j. sample_stage [(c, File), (t, File), (j, File)] out File) \<rparr>"

text \<open>A command line with only the positional argument.\<close>

definition plain_argv :: "string \<Rightarrow> argv" where
  "plain_argv t =
     \<lparr> arg_tiles_json = t, opt_workspace_dir = None, opt_render = False,
       opt_output_file_name = None, opt_jar_file = None, opt_bounding_box = None \<rparr>"

text \<open>A current directory holding a tile spec, with the default jar in place.\<close>

definition sample_fs :: fs where
  "sample_fs =
     [(''.'', Dir), (''tiles.json'', File), (''../target/render-0.0.1-SNAPSHOT.jar'', File)]"

text \<open>The parts of a run.\<close>

definition result_of :: "result \<times> 'w \<times> 'w step list \<Rightarrow> result" where
  "result_of x = fst x"

definition world_of :: "result \<times> 'w \<times> 'w step list \<Rightarrow> 'w" where
  "world_of x = fst (snd x)"

definition trace_of :: "result \<times> 'w \<times> 'w step list \<Rightarrow> 'w step list" where
  "trace_of x = snd (snd x)"

text \<open>The paths produced by the steps of a trace, in order.\<close>

definition outputs :: "'w step list \<Rightarrow> string list" where
  "outputs tr = concat (map (\<lambda>s. call_output (step_call s)) tr)"

text \<open>Sample runs on a 64-bit platform. The plain run, in the sample directory:\<close>

definition sample_run :: "result \<times> fs \<times> fs step list" where
  "sample_run = run sample_env (sys_maxint 64) (plain_argv ''tiles.json'') sample_fs"

text \<open>The tile spec is missing, so the filter stage raises:\<close>

definition missing_tiles_run :: "result \<times> fs \<times> fs step list" where
  "missing_tiles_run =
     run sample_env (sys_maxint 64) (plain_argv ''tiles.json'')
       [(''.'', Dir), (''../target/render-0.0.1-SNAPSHOT.jar'', File)]"

text \<open>With \<open>-w out/run1/ws\<close>, a workspace two levels below a directory that is absent:\<close>

definition nested_ws_argv :: argv where
  "nested_ws_argv = (plain_argv ''tiles.json'')\<lparr>opt_workspace_dir := Some ''out/run1/ws''\<rparr>"

definition nested_ws_run :: "result \<times> fs \<times> fs step list" where
  "nested_ws_run = run sample_env (sys_maxint 64) nested_ws_argv sample_fs"

text \<open>With \<open>-w tiles.json/ws\<close>, a workspace below a regular file, which cannot be created:\<close>

definition blocked_ws_argv :: argv where
  "blocked_ws_argv = (plain_argv ''tiles.json'')\<lparr>opt_workspace_dir := Some ''tiles.json/ws''\<rparr>"

definition blocked_ws_run :: "result \<times> fs \<times> fs step list" where
  "blocked_ws_run = run sample_env (sys_maxint 64) blocked_ws_argv sample_fs"

text \<open>With \<open>-w ws\<close> where \<open>ws\<close> is an existing regular file:\<close>

definition file_ws_argv :: argv where
  "file_ws_argv = (plain_argv ''tiles.json'')\<lparr>opt_workspace_dir := Some ''ws''\<rparr>"

definition file_ws_fs :: fs where
  "file_ws_fs = (''ws'', File) # sample_fs"

definition file_ws_run :: "result \<times> fs \<times> fs step list" where
  "file_ws_run = run sample_env (sys_maxint 64) file_ws_argv file_ws_fs"

text \<open>The tile spec is \<open>./optimized_montage.json\<close> in the default workspace:\<close>

definition clobber_fs :: fs where
  "clobber_fs =
     [(''.'', Dir), (''./optimized_montage.json'', File),
      (''../target/render-0.0.1-SNAPSHOT.jar'', File)]"

definition clobber_run :: "result \<times> fs \<times> fs step list" where
  "clobber_run =
     run sample_env (sys_maxint 64) (plain_argv ''./optimized_montage.json'') clobber_fs"

text \<open>With \<open>-r -o montage.json\<close>:\<close>

definition render_argv :: argv where
  "render_argv =
     (plain_argv ''tiles.json'')
       \<lparr>opt_render := True, opt_output_file_name := Some ''montage.json''\<rparr>"

definition render_run :: "result \<times> fs \<times> fs step list" where
  "render_run = run sample_env (sys_maxint 64) render_argv sample_fs"



section \<open>The shape of every run\<close>

text \<open>The script is the sequential execution of its list of calls.\<close>

lemma perform_eq:
  "perform env c (w, tr) =
     (fst (exec env c w), snd (exec env c w),
      tr @ [\<lparr>step_call = c, step_pre = w, step_result = fst (exec env c w),
             step_post = snd (exec env c w)\<rparr>])"
  by (simp add: perform_def split: prod.splits)

lemma seq_skip: "seq p skip = p"
  by (auto simp: seq_def skip_def fun_eq_iff split: prod.splits sum.splits)

lemma stages_perform_all:
  "seq (perform env (FilterTiles (tiles_fname a) (filter_dir a) (bounding_box a)))
    (seq (perform env (CreateSiftFeatures (filter_dir a) (sift_dir a) (jar_file a)))
    (seq (perform env (MatchSiftFeatures (filter_dir a) (sift_dir a) (match_dir a) (jar_file a)))
    (seq (perform env (JsonConcat (match_dir a) (correspondent_fname a)))
         (perform env
            (OptimizeMontageTransform (correspondent_fname a) (tiles_fname a)
               (optmon_fname a) (jar_file a))))))
   = perform_all env (stage_calls a)"
  by (simp only: stage_calls_def perform_all.simps seq_skip)

lemma main_script:
  "main env a (w, tr) =
     perform_all env (script a (os_path_exists env (workspace_dir a) w)) (w, tr)"
proof -
  have "main env a =
          seq (perform env (PrintArgs a))
         (seq (\<lambda>(w, tr).
                 if \<not> os_path_exists env (workspace_dir a) w
                 then perform env (MakeDirs (workspace_dir a)) (w, tr)
                 else skip (w, tr))
              (perform_all env (stage_calls a)))"
    unfolding main_def stages_perform_all ..
  then show ?thesis
    by (simp add: script_def seq_def perform_eq skip_def)
qed

lemma linked_Cons:
  "linked w (s # ss) w' =
     (step_pre s = w \<and>
      (if ss = [] then w' = step_post s
       else step_result s = Inr () \<and> linked (step_post s) ss w'))"
  by (cases ss) auto

lemma perform_all_trace:
  "perform_all env cs (w, tr) = (r, w', tr') \<Longrightarrow>
     \<exists>steps. tr' = tr @ steps \<and> prefix (calls steps) cs \<and> linked w steps w' \<and>
       list_all (faithful env) steps \<and>
       (case r of
          Inr u \<Rightarrow> calls steps = cs \<and> list_all (\<lambda>s. step_result s = Inr ()) steps
        | Inl e \<Rightarrow> steps \<noteq> [] \<and> step_result (last steps) = Inl e)"
proof (induction cs arbitrary: w tr)
  case Nil
  then show ?case by (auto simp: skip_def calls_def)
next
  case (Cons c cs)
  let ?s = "\<lparr>step_call = c, step_pre = w, step_result = fst (exec env c w),
             step_post = snd (exec env c w)\<rparr>"
  show ?case
  proof (cases "fst (exec env c w)")
    case (Inl e)
    with Cons.prems have "r = Inl e" "w' = snd (exec env c w)" "tr' = tr @ [?s]"
      by (auto simp: seq_def perform_eq)
    then show ?thesis using Inl
      by (intro exI[of _ "[?s]"]) (simp add: calls_def faithful_def)
  next
    case (Inr u)
    with Cons.prems have "perform_all env cs (snd (exec env c w), tr @ [?s]) = (r, w', tr')"
      by (auto simp: seq_def perform_eq)
    from Cons.IH[OF this] obtain steps where st:
      "tr' = (tr @ [?s]) @ steps" "prefix (calls steps) cs"
      "linked (snd (exec env c w)) steps w'" "list_all (faithful env) steps"
      "case r of Inr u \<Rightarrow> calls steps = cs \<and> list_all (\<lambda>s. step_result s = Inr ()) steps
        | Inl e \<Rightarrow> steps \<noteq> [] \<and> step_result (last steps) = Inl e"
      by blast
    have fs: "faithful env ?s" by (simp add: faithful_def)
    show ?thesis using st Inr fs
      by (intro exI[of _ "?s # steps"])
         (auto simp: calls_def linked_Cons split: sum.splits)
  qed
qed


lemma run_trace:
  assumes "run env maxint cl w = (r, w', tr)"
  shows "prefix (calls tr)
           (script (parse_args maxint cl)
              (os_path_exists env (workspace_dir (parse_args maxint cl)) w))"
    and "linked w tr w'"
    and "list_all (faithful env) tr"
    and "r = Inr () \<Longrightarrow> calls tr = script (parse_args maxint cl)
              (os_path_exists env (workspace_dir (parse_args maxint cl)) w)"
    and "r = Inr () \<Longrightarrow> list_all (\<lambda>s. step_result s = Inr ()) tr"
    and "r = Inl e \<Longrightarrow> tr \<noteq> [] \<and> step_result (last tr) = Inl e"
  using perform_all_trace[of env _ w "[]" r w' tr] assms
  unfolding run_def main_script by (auto split: sum.splits)

text \<open>One step of the sequential execution, for evaluating runs on concrete inputs.\<close>

lemma perform_all_step:
  "perform_all env (c # cs) (w, tr) =
     (case exec env c w of
        (Inl e, w1) \<Rightarrow>
          (Inl e, w1,
           tr @ [\<lparr>step_call = c, step_pre = w, step_result = Inl e, step_post = w1\<rparr>])
      | (Inr u, w1) \<Rightarrow>
          perform_all env cs
            (w1, tr @ [\<lparr>step_call = c, step_pre = w, step_result = Inr (), step_post = w1\<rparr>]))"
  by (simp add: seq_def perform_def split: prod.splits sum.splits)

lemma perform_all_nil: "perform_all env [] s = (Inr (), s)"
  by (simp add: skip_def)

lemma perform_all_Cons_nth:
  assumes "perform_all env (c # cs) (w, tr) = (r, w', tr')"
  shows "length tr < length tr' \<and> take (length tr) tr' = tr \<and>
         tr' ! length tr =
           \<lparr>step_call = c, step_pre = w, step_result = fst (exec env c w),
            step_post = snd (exec env c w)\<rparr>"
    and "fst (exec env c w) = Inl e \<Longrightarrow> r = Inl e \<and> length tr' = Suc (length tr)"
    and "fst (exec env c w) = Inr () \<Longrightarrow>
           perform_all env cs
             (snd (exec env c w),
              tr @ [\<lparr>step_call = c, step_pre = w, step_result = Inr (),
                     step_post = snd (exec env c w)\<rparr>]) = (r, w', tr')"
proof -
  let ?s = "\<lparr>step_call = c, step_pre = w, step_result = fst (exec env c w),
             step_post = snd (exec env c w)\<rparr>"
  from perform_all_trace[OF assms] obtain steps where
    st: "tr' = tr @ steps" "linked w steps w'" "list_all (faithful env) steps"
        "prefix (calls steps) (c # cs)"
        "case r of Inl e \<Rightarrow> steps \<noteq> [] \<and> step_result (last steps) = Inl e
         | Inr u \<Rightarrow> calls steps = c # cs \<and> list_all (\<lambda>s. step_result s = Inr ()) steps"
    by blast
  have eq: "perform_all env (c # cs) (w, tr) =
              (case fst (exec env c w) of
                 Inl e \<Rightarrow> (Inl e, snd (exec env c w), tr @ [?s])
               | Inr u \<Rightarrow> perform_all env cs (snd (exec env c w), tr @ [?s]))"
    by (simp add: seq_def perform_eq split: sum.splits)
  show "fst (exec env c w) = Inl e \<Longrightarrow> r = Inl e \<and> length tr' = Suc (length tr)"
    using assms eq by auto
  show "fst (exec env c w) = Inr () \<Longrightarrow>
           perform_all env cs
             (snd (exec env c w),
              tr @ [\<lparr>step_call = c, step_pre = w, step_result = Inr (),
                     step_post = snd (exec env c w)\<rparr>]) = (r, w', tr')"
    using assms eq by auto
  show "length tr < length tr' \<and> take (length tr) tr' = tr \<and> tr' ! length tr = ?s"
  proof (cases "fst (exec env c w)")
    case (Inl e)
    with assms eq show ?thesis by auto
  next
    case (Inr u)
    with assms eq have "perform_all env cs (snd (exec env c w), tr @ [?s]) = (r, w', tr')"
      by auto
    from perform_all_trace[OF this] obtain more where "tr' = (tr @ [?s]) @ more"
      by blast
    then show ?thesis by (simp add: nth_append)
  qed
qed

text \<open>Consequences of a linked trace.\<close>

lemma linked_nth:
  "linked w tr w' \<Longrightarrow> Suc i < length tr \<Longrightarrow>
     step_result (tr ! i) = Inr () \<and> step_pre (tr ! Suc i) = step_post (tr ! i)"
proof (induction w tr w' arbitrary: i rule: linked.induct)
  case (3 w s t ss w')
  then show ?case by (cases i) (auto simp: linked_Cons)
qed simp_all

lemma linked_last: "linked w tr w' \<Longrightarrow> tr \<noteq> [] \<Longrightarrow> w' = step_post (last tr)"
  by (induction w tr w' rule: linked.induct) auto

lemma script_distinct: "distinct (script a ex)"
  by (simp add: script_def stage_calls_def)

lemma distinct_count_list: "distinct xs \<Longrightarrow> x \<in> set xs \<Longrightarrow> count_list xs x = 1"
  by (induction xs) auto

lemma prefix_distinct: "prefix xs ys \<Longrightarrow> distinct ys \<Longrightarrow> distinct xs"
  by (auto simp: prefix_def)

lemma prefix_concat_map:
  "prefix xs ys \<Longrightarrow> prefix (concat (map f xs)) (concat (map f ys))"
  by (auto simp: prefix_def)

lemma calls_stage_steps: "calls (stage_steps tr) = filter is_stage (calls tr)"
  by (simp add: calls_def stage_steps_def filter_map comp_def)

lemma stage_calls_script: "filter is_stage (script a ex) = stage_calls a"
  by (simp add: script_def stage_calls_def)

lemma run_stage_calls:
  assumes "run env maxint cl w = (r, w', tr)"
  shows "prefix (calls (stage_steps tr)) (stage_calls (parse_args maxint cl))"
    and "r = Inr () \<Longrightarrow> calls (stage_steps tr) = stage_calls (parse_args maxint cl)"
  using run_trace(1)[OF assms] run_trace(4)[OF assms]
  by (auto simp: calls_stage_steps stage_calls_script dest: filter_mono_prefix[where P = is_stage])

lemma run_call_in_script:
  assumes "run env maxint cl w = (r, w', tr)" and "s \<in> set tr"
  shows "step_call s \<in> set (script (parse_args maxint cl)
            (os_path_exists env (workspace_dir (parse_args maxint cl)) w))"
  using run_trace(1)[OF assms(1)] assms(2) set_mono_prefix
  by (fastforce simp: calls_def)

lemma run_result_last:
  assumes "run env maxint cl w = (r, w', tr)"
  shows "tr \<noteq> [] \<and> r = step_result (last tr) \<and> w' = step_post (last tr)"
proof -
  note rt = run_trace[OF assms]
  have ne: "tr \<noteq> []"
  proof (cases r)
    case (Inl e) with rt(6) show ?thesis by simp
  next
    case (Inr u)
    with rt(4) show ?thesis by (auto simp: script_def calls_def)
  qed
  moreover have "r = step_result (last tr)"
  proof (cases r)
    case (Inl e) with rt(6) show ?thesis by simp
  next
    case (Inr u)
    with rt(5) ne show ?thesis by (auto simp: list_all_iff)
  qed
  ultimately show ?thesis using linked_last[OF rt(2)] by simp
qed

text \<open>The first steps of every run: printing, then directory creation when nothing exists
  at the workspace path, then the filter stage.\<close>

lemma run_head:
  assumes run: "run env maxint cl w = (r, w', tr)"
    and a: "a = parse_args maxint cl" and W: "W = workspace_dir a"
    and f: "f = FilterTiles (tiles_fname a) (filter_dir a) (bounding_box a)"
  shows "tr \<noteq> [] \<and>
         tr ! 0 = \<lparr>step_call = PrintArgs a, step_pre = w, step_result = Inr (), step_post = w\<rparr>"
    and "os_path_exists env W w \<Longrightarrow>
         1 < length tr \<and>
         tr ! 1 = \<lparr>step_call = f, step_pre = w, step_result = fst (exec env f w),
                   step_post = snd (exec env f w)\<rparr>"
    and "\<not> os_path_exists env W w \<Longrightarrow>
         1 < length tr \<and>
         tr ! 1 = \<lparr>step_call = MakeDirs W, step_pre = w,
                   step_result = fst (os_makedirs env W w),
                   step_post = snd (os_makedirs env W w)\<rparr>"
    and "\<not> os_path_exists env W w \<Longrightarrow> fst (os_makedirs env W w) = Inl e \<Longrightarrow>
           length tr = 2 \<and> r = Inl e"
    and "\<not> os_path_exists env W w \<Longrightarrow> fst (os_makedirs env W w) = Inr () \<Longrightarrow>
         2 < length tr \<and>
         tr ! 2 = \<lparr>step_call = f, step_pre = snd (os_makedirs env W w),
                   step_result = fst (exec env f (snd (os_makedirs env W w))),
                   step_post = snd (exec env f (snd (os_makedirs env W w)))\<rparr>"
proof -
  let ?s0 = "\<lparr>step_call = PrintArgs a, step_pre = w, step_result = Inr (), step_post = w\<rparr>"
  let ?ex = "os_path_exists env W w"
  obtain rest where rest: "stage_calls a = f # rest"
    by (simp add: stage_calls_def f)
  have pa: "perform_all env (PrintArgs a # (if ?ex then [] else [MakeDirs W]) @ stage_calls a)
                       (w, []) = (r, w', tr)"
    using run unfolding run_def main_script script_def a W .
  from perform_all_Cons_nth(1)[OF pa]
  show "tr \<noteq> [] \<and> tr ! 0 = ?s0" by auto
  from perform_all_Cons_nth(3)[OF pa]
  have pb: "perform_all env ((if ?ex then [] else [MakeDirs W]) @ stage_calls a) (w, [?s0]) =
              (r, w', tr)" by simp
  { assume ex: ?ex
    with pb rest have "perform_all env (f # rest) (w, [?s0]) = (r, w', tr)" by simp
    from perform_all_Cons_nth(1)[OF this]
    show "1 < length tr \<and>
         tr ! 1 = \<lparr>step_call = f, step_pre = w, step_result = fst (exec env f w),
                   step_post = snd (exec env f w)\<rparr>" by simp }
  { assume nex: "\<not> ?ex"
    with pb have pc: "perform_all env (MakeDirs W # stage_calls a) (w, [?s0]) = (r, w', tr)"
      by simp
    from perform_all_Cons_nth(1)[OF pc]
    show "1 < length tr \<and>
         tr ! 1 = \<lparr>step_call = MakeDirs W, step_pre = w,
                   step_result = fst (os_makedirs env W w),
                   step_post = snd (os_makedirs env W w)\<rparr>" by simp
    { assume "fst (os_makedirs env W w) = Inl e"
      with perform_all_Cons_nth(2)[OF pc, of e]
      show "length tr = 2 \<and> r = Inl e" by simp }
    { assume "fst (os_makedirs env W w) = Inr ()"
      with perform_all_Cons_nth(3)[OF pc] rest
      have "perform_all env (f # rest)
              (snd (os_makedirs env W w),
               [?s0, \<lparr>step_call = MakeDirs W, step_pre = w, step_result = Inr (),
                       step_post = snd (os_makedirs env W w)\<rparr>]) = (r, w', tr)"
        by simp
      from perform_all_Cons_nth(1)[OF this]
      show "2 < length tr \<and>
         tr ! 2 = \<lparr>step_call = f, step_pre = snd (os_makedirs env W w),
                   step_result = fst (exec env f (snd (os_makedirs env W w))),
                   step_post = snd (exec env f (snd (os_makedirs env W w)))\<rparr>"
        by (simp add: numeral_2_eq_2) } }
qed

text \<open>The steps a list of calls appends do not depend on the trace so far, and a run is the
  printing step followed by the rest of the script.\<close>

lemma perform_all_from_empty:
  "perform_all env cs (w, tr) =
     (case perform_all env cs (w, []) of (r, w', st) \<Rightarrow> (r, w', tr @ st))"
proof (induction cs arbitrary: w tr)
  case Nil
  show ?case by (simp add: skip_def)
next
  case (Cons c cs)
  show ?case
    unfolding perform_all_step
    by (subst (1 2) Cons.IH) (simp split: prod.splits sum.splits)
qed

lemma run_after_print:
  "run env maxint cl w =
     (case perform_all env (tl (script (parse_args maxint cl)
              (os_path_exists env (workspace_dir (parse_args maxint cl)) w))) (w, []) of
        (r, w', st) \<Rightarrow>
          (r, w',
           \<lparr>step_call = PrintArgs (parse_args maxint cl), step_pre = w,
            step_result = Inr (), step_post = w\<rparr> # st))"
  unfolding run_def main_script
  by (subst script_def, unfold list.sel perform_all_step, subst perform_all_from_empty)
     (simp add: script_def split: prod.splits)

text \<open>Setting \<open>--render\<close> and \<open>--output_file_name\<close> changes the printed arguments and
  nothing else: the calls after the printing, the result and the final world are those of
  the run without them.\<close>

lemma render_options_unused:
  "tl (calls (trace_of (run env maxint (cl\<lparr>opt_render := True, opt_output_file_name := out\<rparr>) w))) =
     tl (calls (trace_of (run env maxint (cl\<lparr>opt_render := False\<rparr>) w))) \<and>
   result_of (run env maxint (cl\<lparr>opt_render := True, opt_output_file_name := out\<rparr>) w) =
     result_of (run env maxint (cl\<lparr>opt_render := False\<rparr>) w) \<and>
   world_of (run env maxint (cl\<lparr>opt_render := True, opt_output_file_name := out\<rparr>) w) =
     world_of (run env maxint (cl\<lparr>opt_render := False\<rparr>) w)"
proof -
  have "tl (script (parse_args maxint (cl\<lparr>opt_render := True, opt_output_file_name := out\<rparr>)) ex) =
        tl (script (parse_args maxint (cl\<lparr>opt_render := False\<rparr>)) ex)" for ex
    by (simp add: script_def stage_calls_def parse_args_def filter_dir_def sift_dir_def
          match_dir_def correspondent_fname_def optmon_fname_def)
  moreover have "workspace_dir (parse_args maxint (cl\<lparr>opt_render := True, opt_output_file_name := out\<rparr>)) =
        workspace_dir (parse_args maxint (cl\<lparr>opt_render := False\<rparr>))"
    by (simp add: parse_args_def)
  ultimately show ?thesis
    unfolding run_after_print
    by (simp add: calls_def trace_of_def result_of_def world_of_def split: prod.splits)
qed

section \<open>Evaluation on concrete inputs\<close>

text \<open>Decimal formatting of a numeral, one digit at a time.\<close>

lemma str_nat_numeral:
  "str_nat (numeral k) =
     (if (numeral k :: nat) < 10 then [''0123456789'' ! numeral k]
      else str_nat (numeral k div 10) @ [''0123456789'' ! (numeral k mod 10)])"
  by (rule str_nat.simps)

lemma str_nat_small: "str_nat 0 = ''0''" "str_nat 1 = ''1''" "str_nat (Suc 0) = ''1''"
  by (simp_all add: str_nat.simps)

lemma default_bounding_box_64:
  "default_bounding_box (sys_maxint 64) =
     ''-9223372036854775808 9223372036854775807 -9223372036854775808 9223372036854775807''"
  by (simp add: default_bounding_box_def sys_maxint_def str_int_def str_nat_numeral
        str_nat_small)

lemma default_bounding_box_32:
  "default_bounding_box (sys_maxint 32) =
     ''-2147483648 2147483647 -2147483648 2147483647''"
  by (simp add: default_bounding_box_def sys_maxint_def str_int_def str_nat_numeral
        str_nat_small)

text \<open>When the workspace step does not fail, the filter stage is invoked.\<close>

lemma filter_invoked:
  assumes "run env maxint cl w = (r, w', tr)"
    and "a = parse_args maxint cl" and "W = workspace_dir a"
    and "os_path_exists env W w \<or> fst (os_makedirs env W w) = Inr ()"
  shows "FilterTiles (tiles_fname a) (filter_dir a) (bounding_box a) \<in> set (calls tr)"
proof -
  note h = run_head[OF assms(1,2,3) refl]
  have "\<exists>i<length tr. step_call (tr ! i) =
          FilterTiles (tiles_fname a) (filter_dir a) (bounding_box a)"
  proof (cases "os_path_exists env W w")
    case True
    from h(2)[OF True] show ?thesis by (intro exI[of _ 1]) simp
  next
    case False
    with assms(4) have "fst (os_makedirs env W w) = Inr ()" by simp
    from h(5)[OF False this] show ?thesis by (intro exI[of _ 2]) simp
  qed
  then obtain i where "i < length tr"
    and "step_call (tr ! i) = FilterTiles (tiles_fname a) (filter_dir a) (bounding_box a)"
    by blast
  moreover from this(1) have "step_call (tr ! i) \<in> set (calls tr)"
    by (simp add: calls_def)
  ultimately show ?thesis by simp
qed

text \<open>The parsed arguments of a command line with only the positional argument.\<close>

lemma plain_argv_parsed:
  "workspace_dir (parse_args m (plain_argv t)) = ''.''"
  "filter_dir (parse_args m (plain_argv t)) = ''./filterd''"
  "tiles_fname (parse_args m (plain_argv t)) = t"
  "bounding_box (parse_args m (plain_argv t)) = default_bounding_box m"
  "arg_tiles_json (plain_argv t) = t"
  "opt_bounding_box (plain_argv t) = None"
  by (simp_all add: parse_args_def plain_argv_def filter_dir_def os_path_join_def)







text \<open>The facts used to evaluate the sample runs step by step.\<close>

lemmas sample_eval =
  run_def main_script script_def stage_calls_def perform_all_step perform_all_nil
  parse_args_def plain_argv_def sample_env_def sample_stage_def fs_exists_def fs_isdir_def
  fs_makedirs_def parent_dirs_def filter_dir_def sift_dir_def match_dir_def
  correspondent_fname_def optmon_fname_def os_path_join_def sample_fs_def calls_def
  stage_steps_def result_of_def world_of_def trace_of_def outputs_def

section \<open>The claims\<close>

text \<open>
  C1. The claim is not met by the script: \<open>-r\<close> and \<open>-o\<close> are parsed (and printed) but
  never read again. For every command line, environment and initial world, the run with
  \<open>-r -o out\<close> makes, after the printing, the same calls as the run without \<open>-r\<close>, with
  the same result and final world. The sample run with \<open>-r -o montage.json\<close> completes;
  its calls are the printing and the five stages, the optimization is the last call,
  nothing is invoked on \<open>./optimized_montage.json\<close> after it, and \<open>montage.json\<close> is
  the output of no call.
\<close>

theorem render_flag_ignored:
  "tl (calls (trace_of (run env maxint
         (cl\<lparr>opt_render := True, opt_output_file_name := out\<rparr>) w))) =
     tl (calls (trace_of (run env maxint (cl\<lparr>opt_render := False\<rparr>) w))) \<and>
   result_of (run env maxint (cl\<lparr>opt_render := True, opt_output_file_name := out\<rparr>) w) =
     result_of (run env maxint (cl\<lparr>opt_render := False\<rparr>) w) \<and>
   world_of (run env maxint (cl\<lparr>opt_render := True, opt_output_file_name := out\<rparr>) w) =
     world_of (run env maxint (cl\<lparr>opt_render := False\<rparr>) w) \<and>
   render (parse_args (sys_maxint 64) render_argv) \<and>
   output_file_name (parse_args (sys_maxint 64) render_argv) = ''montage.json'' \<and>
   result_of render_run = Inr () \<and>
   calls (trace_of render_run) =
     [PrintArgs (parse_args (sys_maxint 64) render_argv),
      FilterTiles ''tiles.json'' ''./filterd'' (default_bounding_box (sys_maxint 64)),
      CreateSiftFeatures ''./filterd'' ''./sifts'' ''../target/render-0.0.1-SNAPSHOT.jar'',
      MatchSiftFeatures ''./filterd'' ''./sifts'' ''./sift_matches''
        ''../target/render-0.0.1-SNAPSHOT.jar'',
      JsonConcat ''./sift_matches'' ''./all_correspondent.json'',
      OptimizeMontageTransform ''./all_correspondent.json'' ''tiles.json''
        ''./optimized_montage.json'' ''../target/render-0.0.1-SNAPSHOT.jar''] \<and>
   ''montage.json'' \<notin> set (outputs (trace_of render_run))"
proof -
  have "render (parse_args (sys_maxint 64) render_argv) \<and>
   output_file_name (parse_args (sys_maxint 64) render_argv) = ''montage.json'' \<and>
   result_of render_run = Inr () \<and>
   calls (trace_of render_run) =
     [PrintArgs (parse_args (sys_maxint 64) render_argv),
      FilterTiles ''tiles.json'' ''./filterd'' (default_bounding_box (sys_maxint 64)),
      CreateSiftFeatures ''./filterd'' ''./sifts'' ''../target/render-0.0.1-SNAPSHOT.jar'',
      MatchSiftFeatures ''./filterd'' ''./sifts'' ''./sift_matches''
        ''../target/render-0.0.1-SNAPSHOT.jar'',
      JsonConcat ''./sift_matches'' ''./all_correspondent.json'',
      OptimizeMontageTransform ''./all_correspondent.json'' ''tiles.json''
        ''./optimized_montage.json'' ''../target/render-0.0.1-SNAPSHOT.jar''] \<and>
   ''montage.json'' \<notin> set (outputs (trace_of render_run))"
    by (simp add: render_run_def render_argv_def sample_eval del: perform_all.simps)
  with render_options_unused[where env = env and maxint = maxint and cl = cl and out = out
         and w = w]
  show ?thesis by blast
qed

text \<open>
  C2 (amended). In every run in which no call raises, exactly the five stages are invoked,
  each once, in the order filter, feature extraction, matching, concatenation,
  optimization, with the argument tuples of the claim. In every run the stages invoked
  are an initial segment of that sequence, and every step but the last has returned
  normally before the next one starts, in the world it left.
\<close>

theorem stages_in_order:
  assumes "run env maxint cl w = (r, w', tr)"
    and "a = parse_args maxint cl"
    and "five =
      [FilterTiles (tiles_fname a) (filter_dir a) (bounding_box a),
       CreateSiftFeatures (filter_dir a) (sift_dir a) (jar_file a),
       MatchSiftFeatures (filter_dir a) (sift_dir a) (match_dir a) (jar_file a),
       JsonConcat (match_dir a) (correspondent_fname a),
       OptimizeMontageTransform (correspondent_fname a) (tiles_fname a) (optmon_fname a)
         (jar_file a)]"
  shows "prefix (calls (stage_steps tr)) five \<and>
         (r = Inr () \<longrightarrow> calls (stage_steps tr) = five) \<and>
         (\<forall>i. Suc i < length tr \<longrightarrow>
            step_result (tr ! i) = Inr () \<and> step_pre (tr ! Suc i) = step_post (tr ! i))"
proof -
  have five: "five = stage_calls (parse_args maxint cl)"
    using assms(2,3) by (simp add: stage_calls_def)
  from run_stage_calls[OF assms(1)] five
  have "prefix (calls (stage_steps tr)) five"
    and "r = Inr () \<longrightarrow> calls (stage_steps tr) = five" by simp_all
  moreover have "\<forall>i. Suc i < length tr \<longrightarrow>
      step_result (tr ! i) = Inr () \<and> step_pre (tr ! Suc i) = step_post (tr ! i)"
    using linked_nth[OF run_trace(2)[OF assms(1)]] by blast
  ultimately show ?thesis by blast
qed

text \<open>The plain sample run: all five stages, and the matcher starts where the feature
  extraction left off.\<close>

theorem stages_in_order_witness:
  "result_of sample_run = Inr () \<and>
   calls (stage_steps (trace_of sample_run)) =
     [FilterTiles ''tiles.json'' ''./filterd'' (default_bounding_box (sys_maxint 64)),
      CreateSiftFeatures ''./filterd'' ''./sifts'' ''../target/render-0.0.1-SNAPSHOT.jar'',
      MatchSiftFeatures ''./filterd'' ''./sifts'' ''./sift_matches''
        ''../target/render-0.0.1-SNAPSHOT.jar'',
      JsonConcat ''./sift_matches'' ''./all_correspondent.json'',
      OptimizeMontageTransform ''./all_correspondent.json'' ''tiles.json''
        ''./optimized_montage.json'' ''../target/render-0.0.1-SNAPSHOT.jar''] \<and>
   Suc 2 < length (trace_of sample_run) \<and>
   step_result (trace_of sample_run ! 2) = Inr () \<and>
   step_pre (trace_of sample_run ! Suc 2) = step_post (trace_of sample_run ! 2)"
proof -
  have h1: "run sample_env (sys_maxint 64) (plain_argv ''tiles.json'') sample_fs =
            (result_of sample_run, world_of sample_run, trace_of sample_run)"
    by (simp add: sample_run_def result_of_def world_of_def trace_of_def)
  have h2: "result_of sample_run = Inr ()"
    by (simp add: sample_run_def sample_eval del: perform_all.simps)
  have h3: "Suc 2 < length (trace_of sample_run)"
    by (simp add: sample_run_def sample_eval del: perform_all.simps)
  note t = stages_in_order[OF h1 refl refl]
  from t h2 have c: "calls (stage_steps (trace_of sample_run)) =
     [FilterTiles ''tiles.json'' ''./filterd'' (default_bounding_box (sys_maxint 64)),
      CreateSiftFeatures ''./filterd'' ''./sifts'' ''../target/render-0.0.1-SNAPSHOT.jar'',
      MatchSiftFeatures ''./filterd'' ''./sifts'' ''./sift_matches''
        ''../target/render-0.0.1-SNAPSHOT.jar'',
      JsonConcat ''./sift_matches'' ''./all_correspondent.json'',
      OptimizeMontageTransform ''./all_correspondent.json'' ''tiles.json''
        ''./optimized_montage.json'' ''../target/render-0.0.1-SNAPSHOT.jar'']"
    by (simp add: parse_args_def plain_argv_def filter_dir_def sift_dir_def match_dir_def
          correspondent_fname_def optmon_fname_def os_path_join_def)
  from t have "Suc 2 < length (trace_of sample_run) \<longrightarrow>
      step_result (trace_of sample_run ! 2) = Inr () \<and>
      step_pre (trace_of sample_run ! Suc 2) = step_post (trace_of sample_run ! 2)"
    by blast
  with h2 h3 c show ?thesis by blast
qed

text \<open>
  The claim as stated fails when a stage raises: without a tile spec the filter stage is
  the only stage invoked.
\<close>

theorem five_stages_counterexample:
  "result_of missing_tiles_run = Inl (Error ''IOError'') \<and>
   calls (stage_steps (trace_of missing_tiles_run)) =
     [FilterTiles ''tiles.json'' ''./filterd'' (default_bounding_box (sys_maxint 64))] \<and>
   length (stage_steps (trace_of missing_tiles_run)) \<noteq> 5"
  by (simp add: missing_tiles_run_def sample_eval del: perform_all.simps)

text \<open>
  C3. In every run, an invocation of the optimization stage has the tile-spec path the
  caller supplied as its tile-spec argument, and a run that completes ends with that
  invocation. The path is the caller's string itself, not the filter directory built under
  the workspace.
\<close>

theorem optimizer_gets_original_tile_spec:
  assumes "run env maxint cl w = (r, w', tr)" and "a = parse_args maxint cl"
  shows "(\<forall>s\<in>set tr. \<forall>c t out j.
            step_call s = OptimizeMontageTransform c t out j \<longrightarrow> t = arg_tiles_json cl) \<and>
         (r = Inr () \<longrightarrow>
            step_call (last tr) =
              OptimizeMontageTransform (correspondent_fname a) (arg_tiles_json cl)
                (optmon_fname a) (jar_file a))"
proof -
  have "t = arg_tiles_json cl"
    if "s \<in> set tr" and "step_call s = OptimizeMontageTransform c t out j" for s c t out j
  proof -
    from run_call_in_script[OF assms(1) that(1)] that(2)
    have "OptimizeMontageTransform c t out j \<in>
            set (script (parse_args maxint cl)
                   (os_path_exists env (workspace_dir (parse_args maxint cl)) w))"
      by simp
    then have "t = tiles_fname (parse_args maxint cl)"
      by (simp add: script_def stage_calls_def split: if_splits)
    then show ?thesis by (simp add: parse_args_def)
  qed
  then have "\<forall>s\<in>set tr. \<forall>c t out j.
          step_call s = OptimizeMontageTransform c t out j \<longrightarrow> t = arg_tiles_json cl"
    by blast
  moreover have "step_call (last tr) =
      OptimizeMontageTransform (correspondent_fname a) (arg_tiles_json cl)
        (optmon_fname a) (jar_file a)" if "r = Inr ()"
  proof -
    from run_trace(4)[OF assms(1) that]
    have c: "calls tr = script a (os_path_exists env (workspace_dir a) w)"
      by (simp add: assms(2))
    have ne: "tr \<noteq> []" using c by (auto simp: script_def calls_def)
    then have "step_call (last tr) = last (calls tr)"
      by (simp add: calls_def last_map)
    also have "\<dots> = OptimizeMontageTransform (correspondent_fname a) (arg_tiles_json cl)
        (optmon_fname a) (jar_file a)"
      unfolding c by (simp add: script_def stage_calls_def assms(2) parse_args_def)
    finally show ?thesis .
  qed
  ultimately show ?thesis by blast
qed

text \<open>The plain sample run ends with the optimizer called on \<open>tiles.json\<close>, while the
  filter directory is \<open>./filterd\<close>.\<close>

theorem optimizer_gets_original_tile_spec_witness:
  "result_of sample_run = Inr () \<and>
   last (trace_of sample_run) \<in> set (trace_of sample_run) \<and>
   step_call (last (trace_of sample_run)) =
     OptimizeMontageTransform ''./all_correspondent.json'' ''tiles.json''
       ''./optimized_montage.json'' ''../target/render-0.0.1-SNAPSHOT.jar'' \<and>
   filter_dir (parse_args (sys_maxint 64) (plain_argv ''tiles.json'')) = ''./filterd''"
proof -
  have h1: "run sample_env (sys_maxint 64) (plain_argv ''tiles.json'') sample_fs =
            (result_of sample_run, world_of sample_run, trace_of sample_run)"
    by (simp add: sample_run_def result_of_def world_of_def trace_of_def)
  have h2: "result_of sample_run = Inr ()"
    by (simp add: sample_run_def sample_eval del: perform_all.simps)
  have "trace_of sample_run \<noteq> []"
    using run_result_last[OF h1] by simp
  then have h3: "last (trace_of sample_run) \<in> set (trace_of sample_run)"
    by (rule last_in_set)
  note t = optimizer_gets_original_tile_spec[OF h1 refl]
  from t h2 have c: "step_call (last (trace_of sample_run)) =
     OptimizeMontageTransform ''./all_correspondent.json'' ''tiles.json''
       ''./optimized_montage.json'' ''../target/render-0.0.1-SNAPSHOT.jar''"
    by (simp add: parse_args_def plain_argv_def correspondent_fname_def
          optmon_fname_def os_path_join_def)
  have f: "filter_dir (parse_args (sys_maxint 64) (plain_argv ''tiles.json'')) = ''./filterd''"
    by (simp add: parse_args_def plain_argv_def filter_dir_def os_path_join_def)
  from h2 h3 c f show ?thesis by blast
qed

text \<open>
  C4. In every run, if a call raises (a stage, or the directory creation), it is the last
  step of the trace, so no stage is invoked after it; the call was made once and is not
  repeated; its error is the result of the run, which is not caught, and the exit status is
  not zero; and the final world is the one the failing call left, the driver doing nothing
  to what earlier stages produced.
\<close>

theorem failure_halts_run:
  assumes "run env maxint cl w = (r, w', tr)"
    and "i < length tr" and "step_result (tr ! i) = Inl e"
  shows "Suc i = length tr \<and> count_list (calls tr) (step_call (tr ! i)) = 1 \<and>
         r = Inl e \<and> exit_status r \<noteq> 0 \<and> w' = step_post (tr ! i)"
proof -
  note rt = run_trace[OF assms(1)]
  have last: "Suc i = length tr"
  proof (rule ccontr)
    assume "Suc i \<noteq> length tr"
    with assms(2) have "Suc i < length tr" by simp
    from linked_nth[OF rt(2) this] assms(3) show False by simp
  qed
  have ne: "tr \<noteq> []" using assms(2) by auto
  from last have "length tr - 1 = i" by simp
  with last_conv_nth[OF ne] have li: "last tr = tr ! i" by simp
  from run_result_last[OF assms(1)] li assms(3)
  have r: "r = Inl e" and w: "w' = step_post (tr ! i)" by simp_all
  have "distinct (calls tr)"
    using prefix_distinct[OF rt(1) script_distinct] .
  moreover have "step_call (tr ! i) \<in> set (calls tr)"
    using assms(2) by (simp add: calls_def)
  ultimately have "count_list (calls tr) (step_call (tr ! i)) = 1"
    by (rule distinct_count_list)
  with last r w show ?thesis by simp
qed

text \<open>The run without a tile spec: the filter stage raises and the run ends there.\<close>

theorem failure_halts_run_witness:
  "1 < length (trace_of missing_tiles_run) \<and>
   step_call (trace_of missing_tiles_run ! 1) =
     FilterTiles ''tiles.json'' ''./filterd'' (default_bounding_box (sys_maxint 64)) \<and>
   step_result (trace_of missing_tiles_run ! 1) = Inl (Error ''IOError'') \<and>
   Suc 1 = length (trace_of missing_tiles_run) \<and>
   count_list (calls (trace_of missing_tiles_run)) (step_call (trace_of missing_tiles_run ! 1)) = 1 \<and>
   result_of missing_tiles_run = Inl (Error ''IOError'') \<and>
   exit_status (result_of missing_tiles_run) = 1 \<and>
   world_of missing_tiles_run = step_post (trace_of missing_tiles_run ! 1)"
proof -
  have h1: "run sample_env (sys_maxint 64) (plain_argv ''tiles.json'')
              [(''.'', Dir), (''../target/render-0.0.1-SNAPSHOT.jar'', File)] =
            (result_of missing_tiles_run, world_of missing_tiles_run, trace_of missing_tiles_run)"
    by (simp add: missing_tiles_run_def result_of_def world_of_def trace_of_def)
  have h2: "1 < length (trace_of missing_tiles_run)"
    by (simp add: missing_tiles_run_def sample_eval del: perform_all.simps)
  have h3: "step_result (trace_of missing_tiles_run ! 1) = Inl (Error ''IOError'')"
    by (simp add: missing_tiles_run_def sample_eval del: perform_all.simps)
  have h4: "step_call (trace_of missing_tiles_run ! 1) =
     FilterTiles ''tiles.json'' ''./filterd'' (default_bounding_box (sys_maxint 64))"
    by (simp add: missing_tiles_run_def sample_eval del: perform_all.simps)
  from failure_halts_run[OF h1 h2 h3] h2 h3 h4 show ?thesis by simp
qed

text \<open>
  C5. In every run with workspace directory \<open>W\<close>, the output paths passed to the stages
  are, in order, \<open>filterd\<close>, \<open>sifts\<close>, \<open>sift_matches\<close>, \<open>all_correspondent.json\<close> and
  \<open>optimized_montage.json\<close> under \<open>W\<close>: the workspace string, a separator unless the
  string is empty or already ends with one, and the fixed name. A run that completes
  passes all five; a run that stops early passes the first ones.
\<close>

theorem output_paths_under_workspace:
  assumes "run env maxint cl w = (r, w', tr)"
    and "W = workspace_dir (parse_args maxint cl)"
    and "sep = (if W = [] \<or> last W = CHR ''/'' then [] else ''/'')"
    and "five =
      [W @ sep @ ''filterd'', W @ sep @ ''sifts'', W @ sep @ ''sift_matches'',
       W @ sep @ ''all_correspondent.json'', W @ sep @ ''optimized_montage.json'']"
  shows "prefix (outputs (stage_steps tr)) five \<and>
         (r = Inr () \<longrightarrow> outputs (stage_steps tr) = five)"
proof -
  have o: "outputs (stage_steps tr) = concat (map call_output (calls (stage_steps tr)))"
    by (simp add: outputs_def calls_def comp_def)
  have five: "concat (map call_output (stage_calls (parse_args maxint cl))) = five"
    using assms(2,3,4)
    by (simp add: stage_calls_def filter_dir_def sift_dir_def match_dir_def
          correspondent_fname_def optmon_fname_def os_path_join_def)
  have "prefix (outputs (stage_steps tr)) five"
    unfolding o five[symmetric] by (rule prefix_concat_map[OF run_stage_calls(1)[OF assms(1)]])
  moreover have "outputs (stage_steps tr) = five" if "r = Inr ()"
    unfolding o using run_stage_calls(2)[OF assms(1) that] five by simp
  ultimately show ?thesis by blast
qed

text \<open>The run with \<open>-w out/run1/ws\<close> completes and passes the five paths under it.\<close>

theorem output_paths_under_workspace_witness:
  "result_of nested_ws_run = Inr () \<and>
   outputs (stage_steps (trace_of nested_ws_run)) =
     [''out/run1/ws/filterd'', ''out/run1/ws/sifts'', ''out/run1/ws/sift_matches'',
      ''out/run1/ws/all_correspondent.json'', ''out/run1/ws/optimized_montage.json'']"
proof -
  have h1: "run sample_env (sys_maxint 64) nested_ws_argv sample_fs =
            (result_of nested_ws_run, world_of nested_ws_run, trace_of nested_ws_run)"
    by (simp add: nested_ws_run_def result_of_def world_of_def trace_of_def)
  have h2: "result_of nested_ws_run = Inr ()"
    by (simp add: nested_ws_run_def nested_ws_argv_def sample_eval del: perform_all.simps)
  from output_paths_under_workspace[OF h1 refl refl refl] h2 show ?thesis
    by (simp add: parse_args_def plain_argv_def nested_ws_argv_def)
qed

text \<open>
  C6 (amended). In every run the first step is the printing of the arguments, and before
  any stage is invoked the driver asks \<open>os.path.exists\<close> about the workspace path. When
  the answer is false, the next step is a call of \<open>os.makedirs\<close>, the library's recursive
  directory creation, on the path in the initial world, made once: when it raises, the run
  ends with that error and no stage is invoked; when it returns, the filter stage is the
  next step, in the world the creation left. When the answer is true, which is the
  answer for a directory that is already there and can be reached, the driver creates
  nothing and raises no error: the filter stage is the next step, in the unchanged world.
\<close>

theorem workspace_ensured:
  assumes "run env maxint cl w = (r, w', tr)"
    and "a = parse_args maxint cl" and "W = workspace_dir a"
  shows "tr \<noteq> [] \<and> step_call (tr ! 0) = PrintArgs a \<and>
         (if os_path_exists env W w
          then MakeDirs W \<notin> set (calls tr) \<and> 1 < length tr \<and>
               step_call (tr ! 1) = FilterTiles (tiles_fname a) (filter_dir a) (bounding_box a) \<and>
               step_pre (tr ! 1) = w
          else 1 < length tr \<and> step_call (tr ! 1) = MakeDirs W \<and> step_pre (tr ! 1) = w \<and>
               faithful env (tr ! 1) \<and> count_list (calls tr) (MakeDirs W) = 1 \<and>
               (case step_result (tr ! 1) of
                  Inl e \<Rightarrow> length tr = 2 \<and> r = Inl e
                | Inr u \<Rightarrow>
                    2 < length tr \<and>
                    step_call (tr ! 2) =
                      FilterTiles (tiles_fname a) (filter_dir a) (bounding_box a) \<and>
                    step_pre (tr ! 2) = step_post (tr ! 1)))"
proof -
  note h = run_head[OF assms(1,2,3) refl]
  show ?thesis
  proof (cases "os_path_exists env W w")
    case True
    have "MakeDirs W \<notin> set (calls tr)"
    proof
      assume "MakeDirs W \<in> set (calls tr)"
      then obtain s where "s \<in> set tr" "step_call s = MakeDirs W"
        by (auto simp: calls_def)
      with run_call_in_script[OF assms(1), of s] True assms(2,3)
      show False by (auto simp: script_def stage_calls_def)
    qed
    with h(1) h(2)[OF True] True show ?thesis by simp
  next
    case False
    note m = h(3)[OF False]
    have "distinct (calls tr)"
      using prefix_distinct[OF run_trace(1)[OF assms(1)] script_distinct] .
    moreover have "MakeDirs W \<in> set (calls tr)"
    proof -
      from m have "tr ! 1 \<in> set tr" by (intro nth_mem) simp
      then have "step_call (tr ! 1) \<in> step_call ` set tr" by (rule imageI)
      with m show ?thesis by (simp add: calls_def)
    qed
    ultimately have once: "count_list (calls tr) (MakeDirs W) = 1"
      by (rule distinct_count_list)
    show ?thesis
    proof (cases "fst (os_makedirs env W w)")
      case (Inl e)
      with h(1) m h(4)[OF False Inl] False once show ?thesis
        by (simp add: faithful_def)
    next
      case (Inr u)
      then have ok: "fst (os_makedirs env W w) = Inr ()" by simp
      with h(1) m h(5)[OF False ok] False once show ?thesis
        by (simp add: faithful_def)
    qed
  qed
qed

text \<open>
  With \<open>-w out/run1/ws\<close> nothing exists at the path: the creation is the second step and
  the filter stage starts in the world it left, with \<open>out\<close>, \<open>out/run1\<close> and
  \<open>out/run1/ws\<close> in it. In the plain run \<open>.\<close> exists: no directory is created. With
  \<open>-w tiles.json/ws\<close> the creation raises and the run ends after two steps, before any
  stage.
\<close>

theorem workspace_ensured_witness:
  "\<not> os_path_exists sample_env ''out/run1/ws'' sample_fs \<and>
   step_call (trace_of nested_ws_run ! 1) = MakeDirs ''out/run1/ws'' \<and>
   step_result (trace_of nested_ws_run ! 1) = Inr () \<and>
   count_list (calls (trace_of nested_ws_run)) (MakeDirs ''out/run1/ws'') = 1 \<and>
   step_call (trace_of nested_ws_run ! 2) =
     FilterTiles ''tiles.json'' ''out/run1/ws/filterd'' (default_bounding_box (sys_maxint 64)) \<and>
   step_pre (trace_of nested_ws_run ! 2) =
     [(''out'', Dir), (''out/run1'', Dir), (''out/run1/ws'', Dir)] @ sample_fs \<and>
   os_path_exists sample_env ''.'' sample_fs \<and>
   MakeDirs ''.'' \<notin> set (calls (trace_of sample_run)) \<and>
   step_call (trace_of sample_run ! 1) =
     FilterTiles ''tiles.json'' ''./filterd'' (default_bounding_box (sys_maxint 64)) \<and>
   step_pre (trace_of sample_run ! 1) = sample_fs \<and>
   \<not> os_path_exists sample_env ''tiles.json/ws'' sample_fs \<and>
   step_call (trace_of blocked_ws_run ! 1) = MakeDirs ''tiles.json/ws'' \<and>
   step_result (trace_of blocked_ws_run ! 1) = Inl (Error ''OSError'') \<and>
   length (trace_of blocked_ws_run) = 2 \<and>
   result_of blocked_ws_run = Inl (Error ''OSError'')"
proof -
  have exs: "os_path_exists sample_env = fs_exists" "os_makedirs sample_env = fs_makedirs"
    by (simp_all add: sample_env_def)
  have fd: "filter_dir (parse_args (sys_maxint 64) nested_ws_argv) = ''out/run1/ws/filterd''"
     "tiles_fname (parse_args (sys_maxint 64) nested_ws_argv) = ''tiles.json''"
     "bounding_box (parse_args (sys_maxint 64) nested_ws_argv) = default_bounding_box (sys_maxint 64)"
    by (simp_all add: parse_args_def nested_ws_argv_def plain_argv_def filter_dir_def os_path_join_def)
  have first: "
   \<not> os_path_exists sample_env ''out/run1/ws'' sample_fs \<and>
   step_call (trace_of nested_ws_run ! 1) = MakeDirs ''out/run1/ws'' \<and>
   step_result (trace_of nested_ws_run ! 1) = Inr () \<and>
   count_list (calls (trace_of nested_ws_run)) (MakeDirs ''out/run1/ws'') = 1 \<and>
   step_call (trace_of nested_ws_run ! 2) =
     FilterTiles ''tiles.json'' ''out/run1/ws/filterd'' (default_bounding_box (sys_maxint 64)) \<and>
   step_pre (trace_of nested_ws_run ! 2) =
     [(''out'', Dir), (''out/run1'', Dir), (''out/run1/ws'', Dir)] @ sample_fs"
  proof -
    have n1: "run sample_env (sys_maxint 64) nested_ws_argv sample_fs =
              (result_of nested_ws_run, world_of nested_ws_run, trace_of nested_ws_run)"
      by (simp add: nested_ws_run_def result_of_def world_of_def trace_of_def)
    have nW: "workspace_dir (parse_args (sys_maxint 64) nested_ws_argv) = ''out/run1/ws''"
      by (simp add: parse_args_def nested_ws_argv_def plain_argv_def)
    have pd: "parent_dirs ''out/run1/ws'' = [''out'', ''out/run1'']"
      by (simp add: parent_dirs_def)
    have nex: "\<not> os_path_exists sample_env ''out/run1/ws'' sample_fs"
      by (simp add: exs fs_exists_def sample_fs_def)
    have mk: "fs_makedirs ''out/run1/ws'' sample_fs =
                (Inr (), [(''out'', Dir), (''out/run1'', Dir), (''out/run1/ws'', Dir)] @ sample_fs)"
      by (simp add: fs_makedirs_def pd fs_exists_def sample_fs_def)
    note tn = workspace_ensured[OF n1 refl nW[symmetric], unfolded nW]
    from tn nex have st: "step_call (trace_of nested_ws_run ! 1) = MakeDirs ''out/run1/ws''"
      "step_pre (trace_of nested_ws_run ! 1) = sample_fs"
      "faithful sample_env (trace_of nested_ws_run ! 1)"
      "count_list (calls (trace_of nested_ws_run)) (MakeDirs ''out/run1/ws'') = 1"
      by simp_all
    then have res: "step_result (trace_of nested_ws_run ! 1) = Inr ()"
      and post: "step_post (trace_of nested_ws_run ! 1) =
         [(''out'', Dir), (''out/run1'', Dir), (''out/run1/ws'', Dir)] @ sample_fs"
      by (simp_all add: faithful_def exs mk)
    from tn nex res have "step_call (trace_of nested_ws_run ! 2) =
       FilterTiles ''tiles.json'' ''out/run1/ws/filterd'' (default_bounding_box (sys_maxint 64))"
      and "step_pre (trace_of nested_ws_run ! 2) = step_post (trace_of nested_ws_run ! 1)"
      by (auto simp: fd)
    with nex st res post show ?thesis by simp
  qed
  moreover have "os_path_exists sample_env ''.'' sample_fs \<and>
   MakeDirs ''.'' \<notin> set (calls (trace_of sample_run)) \<and>
   step_call (trace_of sample_run ! 1) =
     FilterTiles ''tiles.json'' ''./filterd'' (default_bounding_box (sys_maxint 64)) \<and>
   step_pre (trace_of sample_run ! 1) = sample_fs"
  proof -
    have s1: "run sample_env (sys_maxint 64) (plain_argv ''tiles.json'') sample_fs =
              (result_of sample_run, world_of sample_run, trace_of sample_run)"
      by (simp add: sample_run_def result_of_def world_of_def trace_of_def)
    have ex: "os_path_exists sample_env ''.'' sample_fs"
      by (simp add: exs fs_exists_def sample_fs_def)
    note ts = workspace_ensured[OF s1 refl refl, unfolded plain_argv_parsed]
    from ts ex show ?thesis by simp
  qed
  moreover have "\<not> os_path_exists sample_env ''tiles.json/ws'' sample_fs \<and>
     step_call (trace_of blocked_ws_run ! 1) = MakeDirs ''tiles.json/ws'' \<and>
     step_result (trace_of blocked_ws_run ! 1) = Inl (Error ''OSError'') \<and>
     length (trace_of blocked_ws_run) = 2 \<and>
     result_of blocked_ws_run = Inl (Error ''OSError'')"
  proof -
    have b1: "run sample_env (sys_maxint 64) blocked_ws_argv sample_fs =
              (result_of blocked_ws_run, world_of blocked_ws_run, trace_of blocked_ws_run)"
      by (simp add: blocked_ws_run_def result_of_def world_of_def trace_of_def)
    have bW: "workspace_dir (parse_args (sys_maxint 64) blocked_ws_argv) = ''tiles.json/ws''"
      by (simp add: parse_args_def blocked_ws_argv_def plain_argv_def)
    have bpd: "parent_dirs ''tiles.json/ws'' = [''tiles.json'']"
      by (simp add: parent_dirs_def)
    have bnex: "\<not> os_path_exists sample_env ''tiles.json/ws'' sample_fs"
      by (simp add: exs fs_exists_def sample_fs_def)
    have bmk: "fs_makedirs ''tiles.json/ws'' sample_fs = (Inl (Error ''OSError''), sample_fs)"
      by (simp add: fs_makedirs_def bpd fs_exists_def sample_fs_def)
    note tb = workspace_ensured[OF b1 refl bW[symmetric], unfolded bW]
    from tb bnex have bst: "step_call (trace_of blocked_ws_run ! 1) = MakeDirs ''tiles.json/ws''"
      "step_pre (trace_of blocked_ws_run ! 1) = sample_fs"
      "faithful sample_env (trace_of blocked_ws_run ! 1)"
      by simp_all
    then have bres: "step_result (trace_of blocked_ws_run ! 1) = Inl (Error ''OSError'')"
      by (simp add: faithful_def exs bmk)
    from tb bnex bres have "length (trace_of blocked_ws_run) = 2 \<and>
        result_of blocked_ws_run = Inl (Error ''OSError'')"
      by auto
    with bnex bst(1) bres show ?thesis by simp
  qed
  ultimately show ?thesis by blast
qed

text \<open>
  The claim as stated fails when the workspace path names an existing regular file:
  \<open>os.path.exists\<close> answers true, nothing is created, and the filter stage is invoked
  although no workspace directory exists.
\<close>

theorem workspace_file_counterexample:
  "fs_exists ''ws'' file_ws_fs \<and> \<not> fs_isdir file_ws_fs ''ws'' \<and>
   calls (trace_of file_ws_run) =
     [PrintArgs (parse_args (sys_maxint 64) file_ws_argv),
      FilterTiles ''tiles.json'' ''ws/filterd'' (default_bounding_box (sys_maxint 64))] \<and>
   step_pre (trace_of file_ws_run ! 1) = file_ws_fs \<and>
   \<not> fs_isdir (step_pre (trace_of file_ws_run ! 1)) ''ws''"
  by (simp add: file_ws_run_def file_ws_argv_def file_ws_fs_def sample_eval
        del: perform_all.simps)

text \<open>
  C7. The five output paths built under the workspace directory are pairwise distinct,
  whatever the workspace string is, and so are the output paths handed to the stages of
  any run: no two stages are given the same output path.
\<close>

theorem output_paths_distinct:
  "distinct [filter_dir a, sift_dir a, match_dir a, correspondent_fname a, optmon_fname a] \<and>
   distinct (outputs (stage_steps (trace_of (run env maxint cl w))))"
proof -
  have d: "distinct [filter_dir a, sift_dir a, match_dir a, correspondent_fname a,
             optmon_fname a]" for a
    by (simp add: filter_dir_def sift_dir_def match_dir_def correspondent_fname_def
          optmon_fname_def os_path_join_def)
  obtain r w' tr where run: "run env maxint cl w = (r, w', tr)"
    by (cases "run env maxint cl w") auto
  have o: "outputs (stage_steps tr) = concat (map call_output (calls (stage_steps tr)))"
    by (simp add: outputs_def calls_def comp_def)
  have "prefix (outputs (stage_steps tr))
          (concat (map call_output (stage_calls (parse_args maxint cl))))"
    unfolding o by (rule prefix_concat_map[OF run_stage_calls(1)[OF run]])
  moreover have "concat (map call_output (stage_calls b)) =
        [filter_dir b, sift_dir b, match_dir b, correspondent_fname b, optmon_fname b]" for b
    by (simp add: stage_calls_def)
  ultimately have "distinct (outputs (stage_steps tr))"
    using d[of "parse_args maxint cl"] prefix_distinct by metis
  with d[of a] run show ?thesis by (simp add: trace_of_def)
qed

text \<open>
  C8. When \<open>--bounding_box\<close> is not supplied, the bounding box of every invocation of
  the filter stage is the text of four integers, in the order minX maxX minY maxY: the
  least integer of the platform, the greatest, the least, the greatest. For a platform
  with \<open>LENGTH('a)\<close>-bit integers these are the bounds of the signed values of a word
  of that length, and both are attained. The filter stage is invoked with it whenever
  the workspace step does not fail.
\<close>

theorem default_bounding_box_unbounded:
  fixes x :: "'a::len word"
  assumes "opt_bounding_box cl = None"
    and "run env (sys_maxint LENGTH('a)) cl w = (r, w', tr)"
    and "lo = - (2 ^ (LENGTH('a) - 1))" and "hi = 2 ^ (LENGTH('a) - 1) - 1"
    and "box = str_int lo @ '' '' @ str_int hi @ '' '' @ str_int lo @ '' '' @ str_int hi"
    and "a = parse_args (sys_maxint LENGTH('a)) cl"
  shows "(\<forall>s\<in>set tr. \<forall>t d b. step_call s = FilterTiles t d b \<longrightarrow> b = box) \<and>
         (os_path_exists env (workspace_dir a) w \<or>
          fst (os_makedirs env (workspace_dir a) w) = Inr () \<longrightarrow>
            FilterTiles (arg_tiles_json cl) (filter_dir a) box \<in> set (calls tr)) \<and>
         lo \<le> sint x \<and> sint x \<le> hi \<and>
         sint (word_of_int lo :: 'a word) = lo \<and> sint (word_of_int hi :: 'a word) = hi"
proof -
  have bb: "bounding_box a = box"
    using assms(1,3,4,5,6)
    by (simp add: parse_args_def default_bounding_box_def sys_maxint_def)
  have "b = box" if "s \<in> set tr" and "step_call s = FilterTiles t d b" for s t d b
  proof -
    from run_call_in_script[OF assms(2) that(1)] that(2)
    have "FilterTiles t d b \<in>
            set (script a (os_path_exists env (workspace_dir a) w))"
      by (simp add: assms(6))
    then have "b = bounding_box a"
      by (simp add: script_def stage_calls_def split: if_splits)
    with bb show ?thesis by simp
  qed
  then have 1: "\<forall>s\<in>set tr. \<forall>t d b. step_call s = FilterTiles t d b \<longrightarrow> b = box"
    by blast
  have 2: "FilterTiles (arg_tiles_json cl) (filter_dir a) box \<in> set (calls tr)"
    if "os_path_exists env (workspace_dir a) w \<or>
        fst (os_makedirs env (workspace_dir a) w) = Inr ()"
    using filter_invoked[OF assms(2) assms(6) refl that] bb
    by (simp add: assms(6) parse_args_def)
  have 3: "lo \<le> sint x" "sint x \<le> hi"
    using sint_ge[of x] sint_lt[of x] assms(3,4) by simp_all
  have 4: "sint (word_of_int lo :: 'a word) = lo" "sint (word_of_int hi :: 'a word) = hi"
    unfolding sint_sbintrunc' assms(3,4)
    by (rule signed_take_bit_int_eq_self; simp)+
  from 1 2 3 4 show ?thesis by blast
qed

text \<open>On a 64-bit platform, the plain sample run.\<close>

theorem default_bounding_box_unbounded_witness:
  "opt_bounding_box (plain_argv ''tiles.json'') = None \<and>
   os_path_exists sample_env ''.'' sample_fs \<and>
   trace_of sample_run ! 1 \<in> set (trace_of sample_run) \<and>
   step_call (trace_of sample_run ! 1) =
     FilterTiles ''tiles.json'' ''./filterd''
       ''-9223372036854775808 9223372036854775807 -9223372036854775808 9223372036854775807'' \<and>
   FilterTiles ''tiles.json'' ''./filterd''
     ''-9223372036854775808 9223372036854775807 -9223372036854775808 9223372036854775807''
     \<in> set (calls (trace_of sample_run)) \<and>
   - 9223372036854775808 \<le> sint (0 :: 64 word) \<and> sint (0 :: 64 word) \<le> 9223372036854775807 \<and>
   sint (word_of_int (- 9223372036854775808) :: 64 word) = - 9223372036854775808 \<and>
   sint (word_of_int 9223372036854775807 :: 64 word) = 9223372036854775807"
proof -
  have h1: "opt_bounding_box (plain_argv ''tiles.json'') = None"
    by (simp add: plain_argv_def)
  have h2: "run sample_env (sys_maxint LENGTH(64)) (plain_argv ''tiles.json'') sample_fs =
            (result_of sample_run, world_of sample_run, trace_of sample_run)"
    by (simp add: sample_run_def result_of_def world_of_def trace_of_def)
  have lo: "(- 9223372036854775808 :: int) = - (2 ^ (LENGTH(64) - 1))"
    and hi: "(9223372036854775807 :: int) = 2 ^ (LENGTH(64) - 1) - 1"
    by simp_all
  have box: "''-9223372036854775808 9223372036854775807 -9223372036854775808 9223372036854775807'' =
      str_int (- 9223372036854775808) @ '' '' @ str_int 9223372036854775807 @ '' '' @
      str_int (- 9223372036854775808) @ '' '' @ str_int 9223372036854775807"
    by (simp add: str_int_def str_nat_numeral str_nat_small)
  have ex: "os_path_exists sample_env ''.'' sample_fs"
    by (simp add: sample_env_def fs_exists_def sample_fs_def)
  note rh = run_head(2)[OF h2 refl refl refl, unfolded plain_argv_parsed, OF ex]
  from rh have h3: "trace_of sample_run ! 1 \<in> set (trace_of sample_run)"
    using nth_mem by blast
  from rh have c: "step_call (trace_of sample_run ! 1) =
      FilterTiles ''tiles.json'' ''./filterd'' (default_bounding_box (sys_maxint LENGTH(64)))"
    by simp
  note t = default_bounding_box_unbounded[OF h1 h2 lo hi box refl, of "0 :: 64 word",
             unfolded plain_argv_parsed]
  from t h3 c have "default_bounding_box (sys_maxint LENGTH(64)) =
     ''-9223372036854775808 9223372036854775807 -9223372036854775808 9223372036854775807''"
    by blast
  with c have c': "step_call (trace_of sample_run ! 1) =
     FilterTiles ''tiles.json'' ''./filterd''
       ''-9223372036854775808 9223372036854775807 -9223372036854775808 9223372036854775807''"
    by simp
  from t ex have "FilterTiles ''tiles.json'' ''./filterd''
     ''-9223372036854775808 9223372036854775807 -9223372036854775808 9223372036854775807''
     \<in> set (calls (trace_of sample_run))"
    by blast
  moreover from t have "- 9223372036854775808 \<le> sint (0 :: 64 word) \<and>
     sint (0 :: 64 word) \<le> 9223372036854775807 \<and>
     sint (word_of_int (- 9223372036854775808) :: 64 word) = - 9223372036854775808 \<and>
     sint (word_of_int 9223372036854775807 :: 64 word) = 9223372036854775807"
    by blast
  ultimately show ?thesis using h1 ex h3 c' by blast
qed

text \<open>
  C9 (amended). In every run the filter stage and the optimization stage receive the
  caller's tile-spec path as their tile-spec input, and every path the driver passes as an
  output, or creates itself, is the workspace path or one of the five fixed names joined
  to it; these six strings are the same whatever the tile-spec path is. The tile-spec
  string is an output path of a stage of a completed run exactly when it is equal to one
  of the five joined strings. This is a statement about the strings the driver passes:
  the script does not check whether the tile spec is one of these files, under the same
  or another spelling, so it does not keep the tile spec from being written.
\<close>

theorem tile_spec_and_output_paths:
  assumes "run env maxint cl w = (r, w', tr)" and "a = parse_args maxint cl"
    and "five = {filter_dir a, sift_dir a, match_dir a, correspondent_fname a, optmon_fname a}"
    and "a' = parse_args maxint (cl\<lparr>arg_tiles_json := t\<rparr>)"
  shows "(\<forall>s\<in>set tr.
            set (call_tile_spec (step_call s)) \<subseteq> {arg_tiles_json cl} \<and>
            set (call_output (step_call s)) \<subseteq> insert (workspace_dir a) five) \<and>
         workspace_dir a' = workspace_dir a \<and>
         {filter_dir a', sift_dir a', match_dir a', correspondent_fname a', optmon_fname a'} =
           five \<and>
         (r = Inr () \<longrightarrow>
            (arg_tiles_json cl \<in> set (outputs (stage_steps tr))) = (arg_tiles_json cl \<in> five))"
proof -
  have t: "tiles_fname a = arg_tiles_json cl"
    by (simp add: assms(2) parse_args_def)
  have 1: "set (call_tile_spec (step_call s)) \<subseteq> {arg_tiles_json cl} \<and>
           set (call_output (step_call s)) \<subseteq> insert (workspace_dir a) five"
    if "s \<in> set tr" for s
  proof -
    from run_call_in_script[OF assms(1) that]
    have "step_call s \<in> set (script a (os_path_exists env (workspace_dir a) w))"
      by (simp add: assms(2))
    then consider "step_call s = PrintArgs a" | "step_call s = MakeDirs (workspace_dir a)"
      | "step_call s \<in> set (stage_calls a)"
      by (auto simp: script_def split: if_splits)
    then show ?thesis
    proof cases
      case 1 then show ?thesis by simp
    next
      case 2 then show ?thesis by simp
    next
      case 3 then show ?thesis
        by (auto simp: stage_calls_def t assms(3))
    qed
  qed
  have 2: "workspace_dir a' = workspace_dir a"
    by (simp add: assms(2,4) parse_args_def)
  then have 3: "{filter_dir a', sift_dir a', match_dir a', correspondent_fname a',
                 optmon_fname a'} = five"
    by (simp add: assms(3) filter_dir_def sift_dir_def match_dir_def correspondent_fname_def
          optmon_fname_def)
  have 4: "(arg_tiles_json cl \<in> set (outputs (stage_steps tr))) = (arg_tiles_json cl \<in> five)"
    if "r = Inr ()"
  proof -
    have "outputs (stage_steps tr) = concat (map call_output (calls (stage_steps tr)))"
      by (simp add: outputs_def calls_def comp_def)
    also have "\<dots> = concat (map call_output (stage_calls a))"
      using run_stage_calls(2)[OF assms(1) that] by (simp add: assms(2))
    also have "\<dots> = [filter_dir a, sift_dir a, match_dir a, correspondent_fname a,
                       optmon_fname a]"
      by (simp add: stage_calls_def)
    finally show ?thesis by (auto simp: assms(3))
  qed
  from 1 2 3 4 show ?thesis by blast
qed

text \<open>In the plain sample run the filter step reads \<open>tiles.json\<close> and writes \<open>./filterd\<close>;
  the run completes and \<open>tiles.json\<close> is none of the five output strings.\<close>

theorem tile_spec_and_output_paths_witness:
  "result_of sample_run = Inr () \<and>
   trace_of sample_run ! 1 \<in> set (trace_of sample_run) \<and>
   step_call (trace_of sample_run ! 1) =
     FilterTiles ''tiles.json'' ''./filterd'' (default_bounding_box (sys_maxint 64)) \<and>
   set (call_tile_spec (step_call (trace_of sample_run ! 1))) \<subseteq> {''tiles.json''} \<and>
   set (call_output (step_call (trace_of sample_run ! 1))) \<subseteq>
     {''.'', ''./filterd'', ''./sifts'', ''./sift_matches'', ''./all_correspondent.json'',
      ''./optimized_montage.json''} \<and>
   ''tiles.json'' \<notin> set (outputs (stage_steps (trace_of sample_run))) \<and>
   ''tiles.json'' \<notin>
     {''./filterd'', ''./sifts'', ''./sift_matches'', ''./all_correspondent.json'',
      ''./optimized_montage.json''}"
proof -
  have h1: "run sample_env (sys_maxint 64) (plain_argv ''tiles.json'') sample_fs =
            (result_of sample_run, world_of sample_run, trace_of sample_run)"
    by (simp add: sample_run_def result_of_def world_of_def trace_of_def)
  have paths: "sift_dir (parse_args m (plain_argv t)) = ''./sifts''"
    "match_dir (parse_args m (plain_argv t)) = ''./sift_matches''"
    "correspondent_fname (parse_args m (plain_argv t)) = ''./all_correspondent.json''"
    "optmon_fname (parse_args m (plain_argv t)) = ''./optimized_montage.json''" for m t
    by (simp_all add: parse_args_def plain_argv_def sift_dir_def match_dir_def
          correspondent_fname_def optmon_fname_def os_path_join_def)
  have upd: "(plain_argv ''tiles.json'')\<lparr>arg_tiles_json := ''other.json''\<rparr> =
             plain_argv ''other.json''"
    by (simp add: plain_argv_def)
  have h2: "result_of sample_run = Inr ()"
    by (simp add: sample_run_def sample_eval del: perform_all.simps)
  have ex: "os_path_exists sample_env ''.'' sample_fs"
    by (simp add: sample_env_def fs_exists_def sample_fs_def)
  note rh = run_head(2)[OF h1 refl refl refl, unfolded plain_argv_parsed, OF ex]
  from rh have h3: "trace_of sample_run ! 1 \<in> set (trace_of sample_run)"
    using nth_mem by blast
  from rh have c: "step_call (trace_of sample_run ! 1) =
      FilterTiles ''tiles.json'' ''./filterd'' (default_bounding_box (sys_maxint 64))"
    by simp
  have h4: "''tiles.json'' \<notin>
     {''./filterd'', ''./sifts'', ''./sift_matches'', ''./all_correspondent.json'',
      ''./optimized_montage.json''}"
    by simp
  note t = tile_spec_and_output_paths[OF h1 refl refl refl, of "''other.json''",
             unfolded upd paths plain_argv_parsed]
  from t have t1: "\<forall>s\<in>set (trace_of sample_run).
      set (call_tile_spec (step_call s)) \<subseteq> {''tiles.json''} \<and>
      set (call_output (step_call s)) \<subseteq>
        insert ''.'' {''./filterd'', ''./sifts'', ''./sift_matches'',
          ''./all_correspondent.json'', ''./optimized_montage.json''}"
    by (rule conjunct1)
  from t1 h3 have b1: "set (call_tile_spec (step_call (trace_of sample_run ! 1))) \<subseteq> {''tiles.json''} \<and>
     set (call_output (step_call (trace_of sample_run ! 1))) \<subseteq>
       {''.'', ''./filterd'', ''./sifts'', ''./sift_matches'', ''./all_correspondent.json'',
        ''./optimized_montage.json''}"
    by (rule bspec)
  from t have "result_of sample_run = Inr () \<longrightarrow>
      (''tiles.json'' \<in> set (outputs (stage_steps (trace_of sample_run)))) =
      (''tiles.json'' \<in> {''./filterd'', ''./sifts'', ''./sift_matches'',
          ''./all_correspondent.json'', ''./optimized_montage.json''})"
    by (rule conjunct2[THEN conjunct2, THEN conjunct2])
  with h2 h4 have b3: "''tiles.json'' \<notin> set (outputs (stage_steps (trace_of sample_run)))"
    by (simp only: simp_thms)
  show ?thesis
    by (intro conjI h2 h3 c b1[THEN conjunct1] b1[THEN conjunct2] b3 h4)
qed

text \<open>
  The claim as stated fails when the caller's tile spec is the path the driver gives the
  optimizer as its output: with \<open>./optimized_montage.json\<close> as tile spec in the default
  workspace the run completes, and its last call has the tile-spec path as output path.
\<close>

theorem tile_spec_clobbered_counterexample:
  "result_of clobber_run = Inr () \<and>
   step_call (last (trace_of clobber_run)) =
     OptimizeMontageTransform ''./all_correspondent.json'' ''./optimized_montage.json''
       ''./optimized_montage.json'' ''../target/render-0.0.1-SNAPSHOT.jar'' \<and>
   arg_tiles_json (plain_argv ''./optimized_montage.json'')
     \<in> set (call_output (step_call (last (trace_of clobber_run))))"
  by (simp add: clobber_run_def clobber_fs_def sample_eval del: perform_all.simps)




end
